theory Spec2Isabelle
  imports Main
begin

section \<open>Strings, numbers and regular expressions of the host language\<close>

text \<open>
  The test suite is TypeScript. A string is modelled as a \<^typ>\<open>string\<close>; the only line
  terminators that such a string can hold are line feed and carriage return. The integer
  timestamps of \<^verbatim>\<open>Date.now()\<close> are modelled as \<^typ>\<open>int\<close>.
\<close>

fun starts_with :: "string \<Rightarrow> string \<Rightarrow> bool" where
  "starts_with s [] = True"
| "starts_with [] (p # ps) = False"
| "starts_with (c # cs) (p # ps) = (c = p \<and> starts_with cs ps)"

text \<open>\<^verbatim>\<open>s.includes(p)\<close>: \<open>p\<close> occurs in \<open>s\<close> as a contiguous run, case-sensitively.\<close>

fun str_includes :: "string \<Rightarrow> string \<Rightarrow> bool" where
  "str_includes [] p = (p = [])"
| "str_includes (c # cs) p = (starts_with (c # cs) p \<or> str_includes cs p)"

text \<open>\<^verbatim>\<open>s.substring(n)\<close> for a non-negative \<open>n\<close>: the part of \<open>s\<close> from index \<open>n\<close> on, empty when
  \<open>s\<close> is shorter.\<close>

definition substring :: "nat \<Rightarrow> string \<Rightarrow> string" where
  "substring n s = drop n s"

text \<open>\<^verbatim>\<open>s.split(";")\<close>: the pieces between the separators; a string without separator is the
  single piece, the empty string included.\<close>

fun split_on :: "char \<Rightarrow> string \<Rightarrow> string list" where
  "split_on sep [] = [[]]"
| "split_on sep (c # cs) =
     (if c = sep then [] # split_on sep cs
      else (case split_on sep cs of
              [] \<Rightarrow> [[c]]
            | piece # pieces \<Rightarrow> (c # piece) # pieces))"

text \<open>The decimal rendering of an integer, as a template literal \<^verbatim>\<open>`${n}`\<close> produces it.\<close>

definition digit_char :: "nat \<Rightarrow> char" where
  "digit_char n = ''0123456789'' ! (n mod 10)"

fun nat_to_string :: "nat \<Rightarrow> string" where
  "nat_to_string n =
     (if n < 10 then [digit_char n]
      else nat_to_string (n div 10) @ [digit_char (n mod 10)])"

declare nat_to_string.simps [simp del]

definition Number_toString :: "int \<Rightarrow> string" where
  "Number_toString i =
     (if i < 0 then CHR ''-'' # nat_to_string (nat (- i)) else nat_to_string (nat i))"

subsection \<open>The fragment of regular expressions that the suite uses\<close>

text \<open>
  The regular-expression literals of the sources are \<^verbatim>\<open>/^Test (Todo|User)/\<close>,
  \<^verbatim>\<open>/Welcome (.+)/\<close>, \<^verbatim>\<open>/Welcome/\<close>, \<^verbatim>\<open>/^ +/\<close>, \<^verbatim>\<open>/=.*/\<close> and \<^verbatim>\<open>/text-red-500/\<close>, all without
  flags. They are built from literal text, a greedy repetition of one character class,
  alternation, sequence and a capturing group. The matcher is the backtracking one of the
  language: it lists, in the order in which backtracking would try them, the ways in which
  the expression matches a prefix of the input, each with the captured groups and the rest
  of the input. No alternative of these expressions holds a group, so the captures of an
  alternation are those of the branch taken.
\<close>

definition is_line_terminator :: "char \<Rightarrow> bool" where
  "is_line_terminator c = (c = CHR 0x0A \<or> c = CHR 0x0D)"

datatype charclass = AnyChar | OneChar char

fun in_class :: "charclass \<Rightarrow> char \<Rightarrow> bool" where
  "in_class AnyChar c = (\<not> is_line_terminator c)"
| "in_class (OneChar d) c = (c = d)"

datatype regexp =
    Lit string
  | Rep0 charclass
  | Rep1 charclass
  | Alt regexp regexp
  | Seq regexp regexp
  | Group regexp

fun rx_run :: "regexp \<Rightarrow> string \<Rightarrow> (string list \<times> string) list" where
  "rx_run (Lit p) s = (if starts_with s p then [([], drop (length p) s)] else [])"
| "rx_run (Rep0 c) s =
     map (\<lambda>k. ([], drop k s)) (rev [0 ..< Suc (length (takeWhile (in_class c) s))])"
| "rx_run (Rep1 c) s =
     map (\<lambda>k. ([], drop k s)) (rev [1 ..< Suc (length (takeWhile (in_class c) s))])"
| "rx_run (Alt a b) s = rx_run a s @ rx_run b s"
| "rx_run (Seq a b) s =
     concat (map (\<lambda>(ca, ra). map (\<lambda>(cb, rb). (ca @ cb, rb)) (rx_run b ra)) (rx_run a s))"
| "rx_run (Group a) s =
     map (\<lambda>(ca, ra). (take (length s - length ra) s # ca, ra)) (rx_run a s)"

text \<open>An expression is its body and whether it starts with the anchor \<^verbatim>\<open>^\<close>.\<close>

record jsregexp =
  rx_anchored :: bool
  rx_body :: regexp

text \<open>The leftmost match: the text before it, its captures and the text after it.\<close>

fun rx_search :: "regexp \<Rightarrow> string \<Rightarrow> (string \<times> string list \<times> string) option" where
  "rx_search r [] =
     (case rx_run r [] of
        [] \<Rightarrow> None
      | (caps, rest) # _ \<Rightarrow> Some ([], caps, rest))"
| "rx_search r (c # cs) =
     (case rx_run r (c # cs) of
        (caps, rest) # _ \<Rightarrow> Some ([], caps, rest)
      | [] \<Rightarrow>
          (case rx_search r cs of
             None \<Rightarrow> None
           | Some (before, caps, rest) \<Rightarrow> Some (c # before, caps, rest)))"

definition RegExp_exec :: "jsregexp \<Rightarrow> string \<Rightarrow> (string \<times> string list \<times> string) option" where
  "RegExp_exec re s =
     (if rx_anchored re then
        (case rx_run (rx_body re) s of
           [] \<Rightarrow> None
         | (caps, rest) # _ \<Rightarrow> Some ([], caps, rest))
      else rx_search (rx_body re) s)"

definition RegExp_test :: "jsregexp \<Rightarrow> string \<Rightarrow> bool" where
  "RegExp_test re s = (RegExp_exec re s \<noteq> None)"

text \<open>\<^verbatim>\<open>s.match(re)\<close> without the global flag, read at index \<open>1\<close>: the first capture of the
  leftmost match, \<open>None\<close> for \<^verbatim>\<open>null\<close>.\<close>

definition String_match1 :: "string \<Rightarrow> jsregexp \<Rightarrow> string option" where
  "String_match1 s re =
     (case RegExp_exec re s of
        None \<Rightarrow> None
      | Some (before, caps, rest) \<Rightarrow> (case caps of [] \<Rightarrow> None | g # _ \<Rightarrow> Some g))"

text \<open>\<^verbatim>\<open>s.replace(re, repl)\<close> without the global flag and with a replacement that holds no
  \<^verbatim>\<open>$\<close> pattern: the leftmost match is replaced, a string without match is returned as it is.\<close>

definition String_replace :: "string \<Rightarrow> jsregexp \<Rightarrow> string \<Rightarrow> string" where
  "String_replace s re repl =
     (case RegExp_exec re s of
        None \<Rightarrow> s
      | Some (before, caps, rest) \<Rightarrow> before @ repl @ rest)"

text \<open>What a test sees of a failed step: the step throws and the test aborts.\<close>

datatype error =
    Error string
  | SelectorNoMatch
  | AssertionFailed

section \<open>Test helpers\<close>

subsection \<open>Data generators and the cleanup pattern\<close>

text \<open>
  The generators read the clock and the random source. \<open>now\<close> is the value of
  \<^verbatim>\<open>Date.now()\<close> and \<open>rnd\<close> the string \<^verbatim>\<open>Math.random().toString(36)\<close>.
\<close>

definition generateEmail :: "int \<Rightarrow> string \<Rightarrow> string" where
  "generateEmail now rnd =
     ''test-'' @ Number_toString now @ ''-'' @ substring 7 rnd @ ''@example.com''"

definition generateName :: "int \<Rightarrow> string" where
  "generateName now = ''Test User '' @ Number_toString now"

definition generatePassword :: "int \<Rightarrow> string" where
  "generatePassword now = ''TestPass'' @ Number_toString now @ ''!''"

definition generateTodoText :: "int \<Rightarrow> string \<Rightarrow> string" where
  "generateTodoText now rnd =
     ''Test Todo '' @ Number_toString now @ '' - '' @ substring 7 rnd"

definition getTestDataPattern :: jsregexp where
  "getTestDataPattern =
     \<lparr>rx_anchored = True,
      rx_body = Seq (Lit ''Test '') (Group (Alt (Lit ''Todo'') (Lit ''User'')))\<rparr>"

subsection \<open>The performance helper\<close>

text \<open>
  The class holds one static map from timer names to start timestamps. The map is passed
  in and returned; \<open>now\<close> is the clock at the call. \<^verbatim>\<open>end\<close> throws on a start time that is
  \<^verbatim>\<open>undefined\<close> or falsy, which for a number is zero; a throw leaves the map as it was.
\<close>

type_synonym measurements = "string \<rightharpoonup> int"

definition PerformanceHelper_start :: "int \<Rightarrow> string \<Rightarrow> measurements \<Rightarrow> measurements" where
  "PerformanceHelper_start now key m = m(key \<mapsto> now)"

definition PerformanceHelper_end ::
  "int \<Rightarrow> string \<Rightarrow> measurements \<Rightarrow> error + (int \<times> measurements)" where
  "PerformanceHelper_end now key m =
     (case m key of
        None \<Rightarrow> Inl (Error (''No start time found for key: '' @ key))
      | Some startTime \<Rightarrow>
          if startTime = 0 then Inl (Error (''No start time found for key: '' @ key))
          else Inr (now - startTime, m(key := None)))"

section \<open>Page objects\<close>

subsection \<open>The base page\<close>

text \<open>
  A page object holds its base URL; the constructor's argument is optional. Of the browser,
  navigation needs only the list of addresses it has been sent to, latest last.
\<close>

record BasePage =
  baseUrl :: string

definition BasePage_new :: "string option \<Rightarrow> BasePage" where
  "BasePage_new arg =
     \<lparr>baseUrl = (case arg of None \<Rightarrow> ''http://localhost:3001'' | Some u \<Rightarrow> u)\<rparr>"

record browser =
  navigations :: "string list"

definition navigateTo :: "string \<Rightarrow> browser \<Rightarrow> browser" where
  "navigateTo url b = b\<lparr>navigations := navigations b @ [url]\<rparr>"

definition navigate :: "BasePage \<Rightarrow> string option \<Rightarrow> browser \<Rightarrow> browser" where
  "navigate page arg b =
     (let path = (case arg of None \<Rightarrow> [] | Some p \<Rightarrow> p)
      in navigateTo (baseUrl page @ path) b)"

text \<open>The client of the API tests has its own default address.\<close>

record ApiClient =
  api_baseUrl :: string

definition ApiClient_new :: "string option \<Rightarrow> ApiClient" where
  "ApiClient_new arg =
     \<lparr>api_baseUrl = (case arg of None \<Rightarrow> ''http://localhost:3000'' | Some u \<Rightarrow> u)\<rparr>"

subsection \<open>Selectors over a flat document\<close>

text \<open>
  For the pages whose selectors name single elements, the document is the list of its
  elements in document order, each with tag, class attribute and text. A selector is the
  list of elements it matches. Reading a property of a selector that matches nothing
  throws.
\<close>

record element =
  el_tag :: string
  el_class :: string
  el_text :: string

type_synonym document = "element list"

definition Selector :: "string \<Rightarrow> document \<Rightarrow> element list" where
  "Selector tag d = filter (\<lambda>e. el_tag e = tag) d"

definition withText :: "string \<Rightarrow> element list \<Rightarrow> element list" where
  "withText txt sel = filter (\<lambda>e. str_includes (el_text e) txt) sel"

definition withText_re :: "jsregexp \<Rightarrow> element list \<Rightarrow> element list" where
  "withText_re re sel = filter (\<lambda>e. RegExp_test re (el_text e)) sel"

definition withAttribute_class :: "jsregexp \<Rightarrow> element list \<Rightarrow> element list" where
  "withAttribute_class re sel = filter (\<lambda>e. RegExp_test re (el_class e)) sel"

definition exists_sel :: "element list \<Rightarrow> bool" where
  "exists_sel sel = (sel \<noteq> [])"

definition innerText :: "element list \<Rightarrow> error + string" where
  "innerText sel = (case sel of [] \<Rightarrow> Inl SelectorNoMatch | e # _ \<Rightarrow> Inr (el_text e))"

subsection \<open>The dashboard page\<close>

text \<open>The document is the one present after the fixed wait of \<^verbatim>\<open>isLoaded\<close>.\<close>

definition dashboard_pageTitle :: "document \<Rightarrow> element list" where
  "dashboard_pageTitle d = withText ''Dashboard'' (Selector ''h1'' d)"

definition welcomeMessage :: "document \<Rightarrow> element list" where
  "welcomeMessage d =
     withText_re \<lparr>rx_anchored = False, rx_body = Lit ''Welcome''\<rparr> (Selector ''p'' d)"

definition dashboard_isLoaded :: "document \<Rightarrow> bool" where
  "dashboard_isLoaded d = exists_sel (dashboard_pageTitle d)"

definition getWelcomeMessage :: "document \<Rightarrow> error + string" where
  "getWelcomeMessage d = innerText (welcomeMessage d)"

definition getUserName :: "document \<Rightarrow> error + string option" where
  "getUserName d =
     (case getWelcomeMessage d of
        Inl e \<Rightarrow> Inl e
      | Inr message \<Rightarrow>
          Inr (String_match1 message
                 \<lparr>rx_anchored = False,
                  rx_body = Seq (Lit ''Welcome '') (Group (Rep1 AnyChar))\<rparr>))"

text \<open>The optional argument is tested for truthiness: an empty string counts as absent.\<close>

definition verifyUserLoggedIn :: "document \<Rightarrow> string option \<Rightarrow> error + bool" where
  "verifyUserLoggedIn d expectedName =
     (if \<not> dashboard_isLoaded d then Inr False
      else (case expectedName of
              None \<Rightarrow> Inr True
            | Some name \<Rightarrow>
                if name = [] then Inr True
                else (case getUserName d of
                        Inl e \<Rightarrow> Inl e
                      | Inr userName \<Rightarrow> Inr (userName = Some name))))"

subsection \<open>The todos page\<close>

text \<open>
  The rows of the list are the \<^verbatim>\<open>li\<close> elements under a \<^verbatim>\<open>ul\<close>, in document order. Of a row
  the page object reads the text of its label, the \<^verbatim>\<open>aria-checked\<close> attribute of its
  checkbox button and whether it has a delete button; \<open>row_key\<close> is the identity of the
  row, by which a click reaches the handlers bound to it. The document is quiescent: it
  changes only through the actions of the test, so a spinner that is present stays, and the
  wait for it to go fails when its timeout has elapsed.
\<close>

record todo_row =
  row_key :: nat
  row_label :: "string option"
  row_checkbox :: "string option option"
  row_delete :: bool

record todos_dom =
  loadingSpinner :: bool
  todoItems :: "todo_row list"

definition waitForTodosLoad :: "todos_dom \<Rightarrow> error + unit" where
  "waitForTodosLoad d = (if loadingSpinner d then Inl AssertionFailed else Inr ())"

definition getTodoCount :: "todos_dom \<Rightarrow> error + nat" where
  "getTodoCount d =
     (case waitForTodosLoad d of
        Inl e \<Rightarrow> Inl e
      | Inr _ \<Rightarrow> Inr (length (todoItems d)))"

text \<open>\<^verbatim>\<open>selector.nth(index)\<close> for the indices that the page object passes, which are not
  negative: the element at the index, or no element.\<close>

definition nth_sel :: "nat \<Rightarrow> 'a list \<Rightarrow> 'a list" where
  "nth_sel index sel = (if index < length sel then [sel ! index] else [])"

text \<open>\<^verbatim>\<open>todo.find('button[role="checkbox"]')\<close>: the checkbox buttons of the rows, each with
  its \<^verbatim>\<open>aria-checked\<close> attribute.\<close>

definition find_checkbox :: "todo_row list \<Rightarrow> (todo_row \<times> string option) list" where
  "find_checkbox sel =
     concat (map (\<lambda>r. case row_checkbox r of None \<Rightarrow> [] | Some a \<Rightarrow> [(r, a)]) sel)"

definition isTodoCompleted :: "todos_dom \<Rightarrow> nat \<Rightarrow> error + bool" where
  "isTodoCompleted d index =
     (let todo = nth_sel index (todoItems d);
          checkbox = find_checkbox todo
      in case checkbox of
           [] \<Rightarrow> Inl SelectorNoMatch
         | (r, ariaChecked) # _ \<Rightarrow> Inr (ariaChecked = Some ''true''))"

text \<open>The loop of \<open>getCompletedTodosCount\<close>, from \<open>i\<close> up to \<open>count\<close>.\<close>

function completed_loop :: "todos_dom \<Rightarrow> nat \<Rightarrow> nat \<Rightarrow> nat \<Rightarrow> error + nat" where
  "completed_loop d count i completedCount =
     (if i < count then
        (case isTodoCompleted d i of
           Inl e \<Rightarrow> Inl e
         | Inr c \<Rightarrow>
             completed_loop d count (i + 1) (if c then completedCount + 1 else completedCount))
      else Inr completedCount)"
  by pat_completeness auto
termination
  by (relation "measure (\<lambda>(d, count, i, completedCount). count - i)") auto

declare completed_loop.simps [simp del]

definition getCompletedTodosCount :: "todos_dom \<Rightarrow> error + nat" where
  "getCompletedTodosCount d =
     (case waitForTodosLoad d of
        Inl e \<Rightarrow> Inl e
      | Inr _ \<Rightarrow>
          (case getTodoCount d of
             Inl e \<Rightarrow> Inl e
           | Inr count \<Rightarrow> completed_loop d count 0 0))"

definition getIncompleteTodosCount :: "todos_dom \<Rightarrow> error + int" where
  "getIncompleteTodosCount d =
     (case getTodoCount d of
        Inl e \<Rightarrow> Inl e
      | Inr total_n \<Rightarrow>
          (case getCompletedTodosCount d of
             Inl e \<Rightarrow> Inl e
           | Inr completed \<Rightarrow> Inr (int total_n - int completed)))"

text \<open>A row counts as completed when its checkbox reads \<^verbatim>\<open>aria-checked="true"\<close>.\<close>

definition row_checked :: "todo_row \<Rightarrow> bool" where
  "row_checked r = (row_checkbox r = Some (Some ''true''))"

text \<open>
  The selector \<^verbatim>\<open>todoItems.find("label").withText(text).parent("li")\<close>: the rows whose
  label contains the text, in document order.
\<close>

definition label_withText :: "string \<Rightarrow> todo_row \<Rightarrow> bool" where
  "label_withText txt r = (case row_label r of None \<Rightarrow> False | Some l \<Rightarrow> str_includes l txt)"

definition getTodoByText :: "string \<Rightarrow> todos_dom \<Rightarrow> todo_row list" where
  "getTodoByText txt d = filter (label_withText txt) (todoItems d)"

definition todoExists :: "string \<Rightarrow> todos_dom \<Rightarrow> bool" where
  "todoExists txt d = (getTodoByText txt d \<noteq> [])"

definition find_deleteButton :: "todo_row list \<Rightarrow> todo_row list" where
  "find_deleteButton sel = filter row_delete sel"

subsection \<open>The application behind the todos page\<close>

text \<open>
  The todos route of the web client and the todo procedures of the server are not among
  the sources, which hold the page object and the tests that drive them, and the schema of
  the todo table. The definitions that stand for the route and the procedures follow the
  spec.
\<close>

text \<open>
  A row of the todo table, as the database schema declares it: an integer id that is the
  auto-incremented primary key, a text that is not null, and a completed flag that is not
  null and defaults to false. The text has no unique constraint.
\<close>

record todo =
  todo_id :: nat
  todo_text :: string
  todo_completed :: bool

text \<open>
  Modelled from the spec: the state of the application, missing with the todo procedures
  and the todos route. It is the todo table, that is its rows in the order of their creation
  and the id that auto-increment gives next, and the content of the input of the page.
\<close>

record app =
  next_id :: nat
  todos :: "todo list"
  todoInput :: string

text \<open>Modelled from the spec: the procedure \<^verbatim>\<open>todo.getAll\<close> of the server, which returns the
  todos.\<close>

definition todo_getAll :: "app \<Rightarrow> todo list" where
  "todo_getAll st = todos st"

text \<open>Modelled from the spec: the procedure \<^verbatim>\<open>todo.create({text})\<close> of the server. It rejects
  an empty text with a status of 400 or more and otherwise stores a todo with a fresh id
  that is not completed. No other invariant is enforced: two todos can have the same
  text.\<close>

definition todo_create :: "string \<Rightarrow> app \<Rightarrow> error + app" where
  "todo_create txt st =
     (if txt = [] then Inl (Error ''HTTP 400'')
      else Inr (st\<lparr>next_id := next_id st + 1,
                   todos := todos st
                     @ [\<lparr>todo_id = next_id st, todo_text = txt, todo_completed = False\<rparr>]\<rparr>))"

text \<open>Modelled from the spec: the procedure \<^verbatim>\<open>todo.toggle({id, completed})\<close> of the server,
  which sets the flag of the todo with that id.\<close>

definition todo_toggle :: "nat \<Rightarrow> bool \<Rightarrow> app \<Rightarrow> app" where
  "todo_toggle ident c st =
     st\<lparr>todos := map (\<lambda>t. if todo_id t = ident then t\<lparr>todo_completed := c\<rparr> else t) (todos st)\<rparr>"

text \<open>Modelled from the spec: the procedure \<^verbatim>\<open>todo.delete({id})\<close> of the server, which
  removes the todo with that id.\<close>

definition todo_delete :: "nat \<Rightarrow> app \<Rightarrow> app" where
  "todo_delete ident st = st\<lparr>todos := filter (\<lambda>t. todo_id t \<noteq> ident) (todos st)\<rparr>"

text \<open>Modelled from the spec: the row that the todos route renders for a todo, with the
  elements that the selectors of the page object look for: a label with the text, a
  checkbox button whose \<^verbatim>\<open>aria-checked\<close> is the completed flag, and a delete button.\<close>

definition render_row :: "todo \<Rightarrow> todo_row" where
  "render_row t =
     \<lparr>row_key = todo_id t,
      row_label = Some (todo_text t),
      row_checkbox = Some (Some (if todo_completed t then ''true'' else ''false'')),
      row_delete = True\<rparr>"

text \<open>Modelled from the spec: the page that the todos route shows once a mutation has
  settled, which is what the fixed delays of the page object wait for: no spinner and one
  row for each todo that \<^verbatim>\<open>todo.getAll\<close> returns.\<close>

definition render :: "app \<Rightarrow> todos_dom" where
  "render st = \<lparr>loadingSpinner = False, todoItems = map render_row (todo_getAll st)\<rparr>"

text \<open>Modelled from the spec: typing into the input of the todos route replaces its content.
  The automation refuses to type an empty text.\<close>

definition typeText_todoInput :: "string \<Rightarrow> app \<Rightarrow> error + app" where
  "typeText_todoInput txt st =
     (if txt = [] then Inl (Error ''typeText: the text is expected to be a non-empty string'')
      else Inr (st\<lparr>todoInput := txt\<rparr>))"

text \<open>Modelled from the spec: the add button of the todos route submits the input to
  \<^verbatim>\<open>todo.create\<close> and clears the input when the todo was created.\<close>

definition click_addButton :: "app \<Rightarrow> app" where
  "click_addButton st =
     (case todo_create (todoInput st) st of
        Inl e \<Rightarrow> st
      | Inr st' \<Rightarrow> st'\<lparr>todoInput := []\<rparr>)"

text \<open>Modelled from the spec: the checkbox of a row of the todos route calls
  \<^verbatim>\<open>todo.toggle\<close> with the id of its todo and the negation of its flag.\<close>

definition click_checkbox :: "nat \<Rightarrow> app \<Rightarrow> app" where
  "click_checkbox key st =
     (case find (\<lambda>t. todo_id t = key) (todos st) of
        None \<Rightarrow> st
      | Some t \<Rightarrow> todo_toggle (todo_id t) (\<not> todo_completed t) st)"

text \<open>Modelled from the spec: the delete button of a row of the todos route calls
  \<^verbatim>\<open>todo.delete\<close> with the id of its todo.\<close>

definition click_deleteButton :: "nat \<Rightarrow> app \<Rightarrow> app" where
  "click_deleteButton key st =
     (case find (\<lambda>t. todo_id t = key) (todos st) of
        None \<Rightarrow> st
      | Some t \<Rightarrow> todo_delete (todo_id t) st)"

text \<open>The table is well formed when the ids are distinct and below the next id, as the
  auto-incremented primary key of the schema keeps them. The table starts empty.\<close>

definition wf_app :: "app \<Rightarrow> bool" where
  "wf_app st =
     (distinct (map todo_id (todos st))
      \<and> list_all (\<lambda>i. i < next_id st) (map todo_id (todos st)))"

definition app_init :: app where
  "app_init = \<lparr>next_id = 1, todos = [], todoInput = []\<rparr>"

subsection \<open>The actions of the todos page object\<close>

text \<open>
  These follow the page object: a click goes to the first element that the selector
  matches and throws when it matches none.
\<close>

definition addTodo :: "string \<Rightarrow> app \<Rightarrow> error + app" where
  "addTodo txt st =
     (case typeText_todoInput txt st of
        Inl e \<Rightarrow> Inl e
      | Inr st1 \<Rightarrow>
          (let st2 = click_addButton st1
           in case waitForTodosLoad (render st2) of
                Inl e \<Rightarrow> Inl e
              | Inr _ \<Rightarrow> Inr st2))"

definition toggleTodoByText :: "string \<Rightarrow> app \<Rightarrow> error + app" where
  "toggleTodoByText txt st =
     (let todo = getTodoByText txt (render st);
          checkbox = find_checkbox todo
      in case checkbox of
           [] \<Rightarrow> Inl SelectorNoMatch
         | (r, a) # _ \<Rightarrow> Inr (click_checkbox (row_key r) st))"

definition deleteTodoByText :: "string \<Rightarrow> app \<Rightarrow> error + app" where
  "deleteTodoByText txt st =
     (let todo = getTodoByText txt (render st);
          deleteButton = find_deleteButton todo
      in case deleteButton of
           [] \<Rightarrow> Inl SelectorNoMatch
         | r # _ \<Rightarrow> Inr (click_deleteButton (row_key r) st))"

subsection \<open>The login page\<close>

text \<open>
  The sign-up and sign-in form components are not among the sources; the login route, the
  dashboard route, the page object and the tests are. The state is what the browser holds
  while a test drives the login page: the path, the name of the signed-in user if any,
  which of the two forms the login route shows, the content of the inputs and the validation
  messages that the form has rendered.
\<close>

record login_st =
  pathname :: string
  session :: "string option"
  showSignIn :: bool
  nameInput :: string
  emailInput :: string
  passwordInput :: string
  messages :: "string list"

text \<open>
  Modelled from the spec: what the sign-up and sign-in form components render, as far as the
  selectors of the page object match it: the title of the form and one paragraph of class
  \<^verbatim>\<open>text-red-500\<close> for each validation message. Which form is shown follows the login
  route; the elements on the dashboard follow the dashboard route, before its private data
  has arrived.
\<close>

definition login_document :: "login_st \<Rightarrow> document" where
  "login_document st =
     (if pathname st = ''/login'' then
        \<lparr>el_tag = ''h1'', el_class = [],
         el_text = (if showSignIn st then ''Welcome Back'' else ''Create Account'')\<rparr>
        # map (\<lambda>m. \<lparr>el_tag = ''p'', el_class = ''text-red-500'', el_text = m\<rparr>) (messages st)
      else if pathname st = ''/dashboard'' then
        [\<lparr>el_tag = ''h1'', el_class = [], el_text = ''Dashboard''\<rparr>,
         \<lparr>el_tag = ''p'', el_class = [],
          el_text = ''Welcome '' @ (case session st of None \<Rightarrow> [] | Some n \<Rightarrow> n)\<rparr>,
         \<lparr>el_tag = ''p'', el_class = [], el_text = ''API: ''\<rparr>]
      else [])"

text \<open>
  Modelled from the spec: the validation of the sign-up form component. A syntactically
  invalid email and a password under eight characters each produce their message; so does a
  name under two characters, with the message that the test of the empty form expects. The
  messages come in the order of the fields. The spec does not say which emails are
  syntactically valid, so the check is the parameter \<open>valid_email\<close>.
\<close>

definition signUp_validate :: "(string \<Rightarrow> bool) \<Rightarrow> string \<Rightarrow> string \<Rightarrow> string \<Rightarrow> string list" where
  "signUp_validate valid_email name email password =
     (if length name < 2 then [''Name must be at least 2 characters''] else [])
     @ (if valid_email email then [] else [''Invalid email address''])
     @ (if length password < 8 then [''Password must be at least 8 characters''] else [])"

text \<open>
  Modelled from the spec: the submit handler of the sign-up form component. With a
  validation message the form renders the messages and the path stays where it is; without
  one the user is signed up and the browser goes to the dashboard.
\<close>

definition click_signUpButton :: "(string \<Rightarrow> bool) \<Rightarrow> login_st \<Rightarrow> login_st" where
  "click_signUpButton valid_email st =
     (let errs = signUp_validate valid_email (nameInput st) (emailInput st) (passwordInput st)
      in if errs \<noteq> [] then st\<lparr>messages := errs\<rparr>
         else st\<lparr>pathname := ''/dashboard'', session := Some (nameInput st), messages := []\<rparr>)"

text \<open>
  The login route redirects a signed-in user to the home page before it loads and shows
  the sign-up form first; opening it mounts the form afresh.
\<close>

definition LoginPage_open :: "login_st \<Rightarrow> login_st" where
  "LoginPage_open st =
     (if session st \<noteq> None then st\<lparr>pathname := ''/''\<rparr>
      else st\<lparr>pathname := ''/login'', showSignIn := False, nameInput := [],
              emailInput := [], passwordInput := [], messages := []\<rparr>)"

definition getCurrentPath :: "login_st \<Rightarrow> string" where
  "getCurrentPath st = pathname st"

definition errorMessage :: "login_st \<Rightarrow> element list" where
  "errorMessage st =
     withAttribute_class \<lparr>rx_anchored = False, rx_body = Lit ''text-red-500''\<rparr>
       (Selector ''p'' (login_document st))"

definition isOnSignUpForm :: "login_st \<Rightarrow> bool" where
  "isOnSignUpForm st = exists_sel (withText ''Create Account'' (Selector ''h1'' (login_document st)))"

definition isOnSignInForm :: "login_st \<Rightarrow> bool" where
  "isOnSignInForm st = exists_sel (withText ''Welcome Back'' (Selector ''h1'' (login_document st)))"

text \<open>The switch button of the sign-in form makes the route show a fresh sign-up form.\<close>

definition switchToSignUp :: "login_st \<Rightarrow> login_st" where
  "switchToSignUp st =
     (if isOnSignInForm st then
        st\<lparr>showSignIn := False, nameInput := [], emailInput := [], passwordInput := [],
           messages := []\<rparr>
      else st)"

text \<open>
  Modelled from the spec: the inputs of the form components. Typing replaces the content of
  an input. The automation refuses an empty text, and the step throws when the input is not
  in the document: the name input exists on the sign-up form only.
\<close>

datatype field = NameField | EmailField | PasswordField

definition field_present :: "field \<Rightarrow> login_st \<Rightarrow> bool" where
  "field_present f st =
     (pathname st = ''/login'' \<and> (if f = NameField then \<not> showSignIn st else True))"

definition typeText_field :: "field \<Rightarrow> string \<Rightarrow> login_st \<Rightarrow> error + login_st" where
  "typeText_field f txt st =
     (if txt = [] then Inl (Error ''typeText: the text is expected to be a non-empty string'')
      else if \<not> field_present f st then Inl SelectorNoMatch
      else Inr (case f of
                  NameField \<Rightarrow> st\<lparr>nameInput := txt\<rparr>
                | EmailField \<Rightarrow> st\<lparr>emailInput := txt\<rparr>
                | PasswordField \<Rightarrow> st\<lparr>passwordInput := txt\<rparr>))"

definition fillSignUpForm :: "string \<Rightarrow> string \<Rightarrow> string \<Rightarrow> login_st \<Rightarrow> error + login_st" where
  "fillSignUpForm name email password st =
     (case typeText_field NameField name (switchToSignUp st) of
        Inl e \<Rightarrow> Inl e
      | Inr st1 \<Rightarrow>
          (case typeText_field EmailField email st1 of
             Inl e \<Rightarrow> Inl e
           | Inr st2 \<Rightarrow> typeText_field PasswordField password st2))"

text \<open>
  \<open>submitForm\<close> clicks the submit button of the form that is shown. What the sign-in button
  does is left open: it is the parameter \<open>click_signInButton\<close>.
\<close>

definition submitForm ::
  "(string \<Rightarrow> bool) \<Rightarrow> (login_st \<Rightarrow> login_st) \<Rightarrow> login_st \<Rightarrow> error + login_st" where
  "submitForm valid_email click_signInButton st =
     (if isOnSignUpForm st then Inr (click_signUpButton valid_email st)
      else if isOnSignInForm st then Inr (click_signInButton st)
      else Inl SelectorNoMatch)"

definition clearForm :: "login_st \<Rightarrow> error + login_st" where
  "clearForm st =
     (if isOnSignUpForm st then
        Inr (st\<lparr>nameInput := [], emailInput := [], passwordInput := []\<rparr>)
      else if isOnSignInForm st then Inr (st\<lparr>emailInput := [], passwordInput := []\<rparr>)
      else Inl SelectorNoMatch)"

section \<open>Roles\<close>

subsection \<open>The storage of the browser\<close>

text \<open>
  The routine of the guest role runs in the page and works on the storage of the browser:
  local storage and the cookie store. A cookie has a name, a value, a path, the
  \<^verbatim>\<open>HttpOnly\<close> mark and an optional expiry time in milliseconds. The store follows RFC 6265
  as far as the routine exercises it. Reading \<^verbatim>\<open>document.cookie\<close> lists the cookies that
  are not marked \<^verbatim>\<open>HttpOnly\<close>, have not expired and whose path matches the path of the
  document, as pairs \<^verbatim>\<open>name=value\<close> joined by \<^verbatim>\<open>"; "\<close>. Assigning to \<^verbatim>\<open>document.cookie\<close>
  parses the string into a pair and attributes, of which \<^verbatim>\<open>expires\<close> and \<^verbatim>\<open>path\<close> are read
  (the routine writes no other); a string without \<^verbatim>\<open>=\<close> in its pair is ignored, and so is a
  write to a name and path under which the store holds a cookie marked \<^verbatim>\<open>HttpOnly\<close>.
  Otherwise the cookie replaces the one of the same name and path, and a cookie whose
  expiry time is not in the future is dropped.
\<close>

record cookie =
  cookie_name :: string
  cookie_value :: string
  cookie_path :: string
  cookie_httpOnly :: bool
  cookie_expires :: "int option"

record storage =
  localStorage :: "(string \<times> string) list"
  cookie_jar :: "cookie list"

definition expired :: "int \<Rightarrow> cookie \<Rightarrow> bool" where
  "expired now c = (case cookie_expires c of None \<Rightarrow> False | Some e \<Rightarrow> e \<le> now)"

definition path_match :: "string \<Rightarrow> string \<Rightarrow> bool" where
  "path_match request_path cp =
     (cp = request_path
      \<or> (starts_with request_path cp
          \<and> ((cp \<noteq> [] \<and> last cp = CHR ''/'')
              \<or> (case drop (length cp) request_path of [] \<Rightarrow> False | c # _ \<Rightarrow> c = CHR ''/''))))"

fun join_with :: "string \<Rightarrow> string list \<Rightarrow> string" where
  "join_with sep [] = []"
| "join_with sep [x] = x"
| "join_with sep (x # y # ys) = x @ sep @ join_with sep (y # ys)"

definition cookie_pair :: "cookie \<Rightarrow> string" where
  "cookie_pair c =
     (if cookie_name c = [] then cookie_value c else cookie_name c @ ''='' @ cookie_value c)"

text \<open>A script can see a cookie that is not marked \<^verbatim>\<open>HttpOnly\<close>, has not expired and
  whose path matches the path of the document.\<close>

definition script_visible :: "int \<Rightarrow> string \<Rightarrow> cookie \<Rightarrow> bool" where
  "script_visible now doc_path c =
     (\<not> cookie_httpOnly c \<and> \<not> expired now c \<and> path_match doc_path (cookie_path c))"

definition document_cookie_get :: "int \<Rightarrow> string \<Rightarrow> storage \<Rightarrow> string" where
  "document_cookie_get now doc_path st =
     join_with ''; '' (map cookie_pair (filter (script_visible now doc_path) (cookie_jar st)))"

fun split_first :: "char \<Rightarrow> string \<Rightarrow> (string \<times> string) option" where
  "split_first sep [] = None"
| "split_first sep (c # cs) =
     (if c = sep then Some ([], cs)
      else (case split_first sep cs of
              None \<Rightarrow> None
            | Some (a, b) \<Rightarrow> Some (c # a, b)))"

definition is_ws :: "char \<Rightarrow> bool" where
  "is_ws c = (c = CHR '' '' \<or> c = CHR 0x09)"

definition trim :: "string \<Rightarrow> string" where
  "trim s = rev (dropWhile is_ws (rev (dropWhile is_ws s)))"

text \<open>
  The text of a date matters only in that the browser reads back the instant that the
  script wrote, to the second; it is rendered here as the count of seconds.
\<close>

definition toUTCString :: "int \<Rightarrow> string" where
  "toUTCString ms = Number_toString (ms div 1000)"

definition digit_value :: "char \<Rightarrow> nat option" where
  "digit_value c = map_of (zip ''0123456789'' [0 ..< 10]) c"

fun parse_digits :: "nat \<Rightarrow> string \<Rightarrow> nat option" where
  "parse_digits acc [] = Some acc"
| "parse_digits acc (c # cs) =
     (case digit_value c of
        None \<Rightarrow> None
      | Some d \<Rightarrow> parse_digits (10 * acc + d) cs)"

definition parse_date :: "string \<Rightarrow> int option" where
  "parse_date s =
     (if s = [] then None
      else (case parse_digits 0 s of None \<Rightarrow> None | Some n \<Rightarrow> Some (int n * 1000)))"

definition parse_attribute :: "string \<Rightarrow> string \<times> string" where
  "parse_attribute a =
     (case split_first CHR ''='' a of
        None \<Rightarrow> (trim a, [])
      | Some (k, v) \<Rightarrow> (trim k, trim v))"

definition parse_cookie_string :: "string \<Rightarrow> (string \<times> string \<times> (string \<times> string) list) option" where
  "parse_cookie_string s =
     (case split_on CHR '';'' s of
        [] \<Rightarrow> None
      | pair # attrs \<Rightarrow>
          (case split_first CHR ''='' pair of
             None \<Rightarrow> None
           | Some (n, v) \<Rightarrow> Some (trim n, trim v, map parse_attribute attrs)))"

definition default_path :: "string \<Rightarrow> string" where
  "default_path doc_path =
     (let dir = rev (drop 1 (dropWhile (\<lambda>c. c \<noteq> CHR ''/'') (rev doc_path)))
      in if dir = [] then ''/'' else dir)"

definition document_cookie_set :: "int \<Rightarrow> string \<Rightarrow> string \<Rightarrow> storage \<Rightarrow> storage" where
  "document_cookie_set now doc_path s st =
     (case parse_cookie_string s of
        None \<Rightarrow> st
      | Some (name, val, attrs) \<Rightarrow>
          if name = [] \<and> val = [] then st
          else
            (let path = (case map_of (rev attrs) ''path'' of
                           None \<Rightarrow> default_path doc_path
                         | Some p \<Rightarrow> if starts_with p ''/'' then p else default_path doc_path);
                 expiry = (case map_of (rev attrs) ''expires'' of
                             None \<Rightarrow> None
                           | Some d \<Rightarrow> parse_date d);
                 same = (\<lambda>c. cookie_name c = name \<and> cookie_path c = path);
                 new = \<lparr>cookie_name = name, cookie_value = val, cookie_path = path,
                        cookie_httpOnly = False, cookie_expires = expiry\<rparr>;
                 others = filter (\<lambda>c. \<not> same c) (cookie_jar st)
             in if list_ex (\<lambda>c. same c \<and> cookie_httpOnly c) (cookie_jar st) then st
                else st\<lparr>cookie_jar := (if expired now new then others else others @ [new])\<rparr>))"

subsection \<open>The guest role\<close>

text \<open>
  The routine clears local storage, splits \<^verbatim>\<open>document.cookie\<close> at the semicolons and, for
  each piece, strips the leading spaces, replaces everything from the first \<^verbatim>\<open>=\<close> by an
  empty value with an expiry at the current time and the path \<^verbatim>\<open>/\<close>, and assigns the result
  to \<^verbatim>\<open>document.cookie\<close>. The role opens the home page, so the path of the document is
  \<^verbatim>\<open>/\<close>; \<open>now\<close> is the clock while the routine runs.
\<close>

definition clear_cookie_string :: "int \<Rightarrow> string \<Rightarrow> string" where
  "clear_cookie_string now c =
     String_replace
       (String_replace c \<lparr>rx_anchored = True, rx_body = Rep1 (OneChar CHR '' '')\<rparr> [])
       \<lparr>rx_anchored = False, rx_body = Seq (Lit ''='') (Rep0 AnyChar)\<rparr>
       (''=;expires='' @ toUTCString now @ '';path=/'')"

definition guestUser_init :: "int \<Rightarrow> storage \<Rightarrow> storage" where
  "guestUser_init now st =
     (let st1 = st\<lparr>localStorage := []\<rparr>
      in foldl (\<lambda>s c. document_cookie_set now ''/'' (clear_cookie_string now c) s) st1
           (split_on CHR '';'' (document_cookie_get now ''/'' st1)))"







subsection \<open>Cookies within reach of the routine\<close>








section \<open>Sample states\<close>

text \<open>Sample documents on which the properties below are evaluated.\<close>

definition guest_browser :: login_st where
  "guest_browser =
     \<lparr>pathname = ''/'', session = None, showSignIn = False, nameInput = [], emailInput = [],
      passwordInput = [], messages = []\<rparr>"

text \<open>A stand-in for the email check of the application, to evaluate the form on examples.\<close>

definition has_at_sign :: "string \<Rightarrow> bool" where
  "has_at_sign s = (CHR ''@'' \<in> set s)"

definition dashboard_example :: document where
  "dashboard_example =
     [\<lparr>el_tag = ''h1'', el_class = [], el_text = ''Dashboard''\<rparr>,
      \<lparr>el_tag = ''p'', el_class = [], el_text = ''Welcome Test User 17''\<rparr>,
      \<lparr>el_tag = ''p'', el_class = [], el_text = ''API: This is private''\<rparr>]"

definition app_two :: app where
  "app_two =
     \<lparr>next_id = 3,
      todos = [\<lparr>todo_id = 1, todo_text = ''Write tests'', todo_completed = False\<rparr>,
               \<lparr>todo_id = 2, todo_text = ''Buy milk'', todo_completed = False\<rparr>],
      todoInput = []\<rparr>"

definition app_duplicates :: app where
  "app_duplicates =
     \<lparr>next_id = 3,
      todos = [\<lparr>todo_id = 1, todo_text = ''Buy milk'', todo_completed = False\<rparr>,
               \<lparr>todo_id = 2, todo_text = ''Buy milk'', todo_completed = False\<rparr>],
      todoInput = []\<rparr>"

definition todos_dom_example :: todos_dom where
  "todos_dom_example =
     \<lparr>loadingSpinner = False,
      todoItems =
        [\<lparr>row_key = 1, row_label = Some ''Buy milk'',
          row_checkbox = Some (Some ''false''), row_delete = True\<rparr>,
         \<lparr>row_key = 2, row_label = Some ''Write tests'',
          row_checkbox = Some (Some ''true''), row_delete = True\<rparr>,
         \<lparr>row_key = 3, row_label = Some ''Ship'',
          row_checkbox = Some (Some ''false''), row_delete = True\<rparr>]\<rparr>"




section \<open>Properties\<close>

subsection \<open>Strings\<close>

lemma starts_with_append [simp]: "starts_with (p @ r) p"
  by (induction p) auto

lemma starts_with_refl [simp]: "starts_with s s"
  using starts_with_append [of s "[]"] by simp

lemma starts_with_iff: "starts_with s p \<longleftrightarrow> (\<exists>r. s = p @ r)"
  by (induction s p rule: starts_with.induct) auto

lemma str_includes_refl [simp]: "str_includes s s"
  by (cases s) auto

subsection \<open>Generated data and the cleanup pattern\<close>

text \<open>
  C10. Whatever the clock and the random source give, the texts of \<open>generateTodoText\<close> and
  \<open>generateName\<close> match the cleanup pattern \<^verbatim>\<open>/^Test (Todo|User)/\<close>, and the texts of
  \<open>generateEmail\<close> and \<open>generatePassword\<close> do not.
\<close>

theorem generated_data_and_cleanup_pattern:
  "RegExp_test getTestDataPattern (generateTodoText now rnd)
   \<and> RegExp_test getTestDataPattern (generateName now)
   \<and> \<not> RegExp_test getTestDataPattern (generateEmail now rnd)
   \<and> \<not> RegExp_test getTestDataPattern (generatePassword now)"
  by (simp add: RegExp_test_def RegExp_exec_def getTestDataPattern_def
      generateTodoText_def generateName_def generateEmail_def generatePassword_def)

theorem generated_data_and_cleanup_pattern_witness:
  "generateTodoText 1700000000000 ''0.4fzyo82mvyr'' = ''Test Todo 1700000000000 - 82mvyr''
   \<and> RegExp_test getTestDataPattern ''Test Todo 1700000000000 - 82mvyr''
   \<and> generateName 1700000000000 = ''Test User 1700000000000''
   \<and> RegExp_test getTestDataPattern ''Test User 1700000000000''
   \<and> generateEmail 1700000000000 ''0.4fzyo82mvyr'' = ''test-1700000000000-82mvyr@example.com''
   \<and> \<not> RegExp_test getTestDataPattern ''test-1700000000000-82mvyr@example.com''
   \<and> generatePassword 1700000000000 = ''TestPass1700000000000!''
   \<and> \<not> RegExp_test getTestDataPattern ''TestPass1700000000000!''"
proof -
  have digits: "Number_toString 1700000000000 = ''1700000000000''"
    by (simp add: Number_toString_def nat_to_string.simps digit_char_def)
  have todo: "generateTodoText 1700000000000 ''0.4fzyo82mvyr'' = ''Test Todo 1700000000000 - 82mvyr''"
    by (simp add: generateTodoText_def digits substring_def)
  have name: "generateName 1700000000000 = ''Test User 1700000000000''"
    by (simp add: generateName_def digits)
  have email: "generateEmail 1700000000000 ''0.4fzyo82mvyr'' = ''test-1700000000000-82mvyr@example.com''"
    by (simp add: generateEmail_def digits substring_def)
  have password: "generatePassword 1700000000000 = ''TestPass1700000000000!''"
    by (simp add: generatePassword_def digits)
  from generated_data_and_cleanup_pattern [of 1700000000000 "''0.4fzyo82mvyr''"]
  show ?thesis
    unfolding todo name email password by simp
qed

subsection \<open>The performance helper\<close>

text \<open>
  C4. \<open>end\<close> throws for a key without recorded start, be it that \<open>start\<close> was never called
  for it or that an earlier successful \<open>end\<close> removed it. A start recorded at a non-zero
  clock value makes \<open>end\<close> succeed; every successful \<open>end\<close> returns the time elapsed since
  the recorded start and removes the key, so that the next \<open>end\<close> for it throws.
\<close>

theorem PerformanceHelper_end_paired:
  "(m key = None \<longrightarrow>
      PerformanceHelper_end now key m = Inl (Error (''No start time found for key: '' @ key)))
   \<and> (\<forall>s. m key = Some s \<and> s \<noteq> 0 \<longrightarrow>
          PerformanceHelper_end now key m = Inr (now - s, m(key := None)))
   \<and> (\<forall>d m'. PerformanceHelper_end now key m = Inr (d, m') \<longrightarrow>
          (\<exists>s. m key = Some s \<and> d = now - s) \<and> m' = m(key := None)
          \<and> PerformanceHelper_end later key m'
              = Inl (Error (''No start time found for key: '' @ key)))"
  by (auto simp: PerformanceHelper_end_def split: option.splits if_splits)

theorem PerformanceHelper_end_paired_witness:
  "PerformanceHelper_end 1500 ''pageLoad'' Map.empty
     = Inl (Error ''No start time found for key: pageLoad'')
   \<and> PerformanceHelper_end 1500 ''pageLoad'' (PerformanceHelper_start 1000 ''pageLoad'' Map.empty)
     = Inr (500, Map.empty)
   \<and> PerformanceHelper_end 1700 ''pageLoad'' Map.empty
     = Inl (Error ''No start time found for key: pageLoad'')"
proof -
  let ?m = "PerformanceHelper_start 1000 ''pageLoad'' Map.empty"
  note unset = PerformanceHelper_end_paired [of Map.empty "''pageLoad''" 1500 1700]
  note running = PerformanceHelper_end_paired [of ?m "''pageLoad''" 1500 1700]
  have started: "?m ''pageLoad'' = Some 1000 \<and> (1000::int) \<noteq> 0"
    by (simp add: PerformanceHelper_start_def)
  have cleared: "?m(''pageLoad'' := None) = Map.empty"
    by (simp add: PerformanceHelper_start_def)
  from unset have first: "PerformanceHelper_end 1500 ''pageLoad'' Map.empty
      = Inl (Error (''No start time found for key: '' @ ''pageLoad''))"
    by simp
  from running started have ended: "PerformanceHelper_end 1500 ''pageLoad'' ?m
      = Inr (1500 - 1000, ?m(''pageLoad'' := None))"
    by blast
  from running ended have again: "PerformanceHelper_end 1700 ''pageLoad'' (?m(''pageLoad'' := None))
      = Inl (Error (''No start time found for key: '' @ ''pageLoad''))"
    by blast
  from first ended again cleared show ?thesis
    by simp
qed

subsection \<open>Navigation\<close>

text \<open>
  C8. \<open>navigate\<close> sends the browser to the base URL of the page object followed by the
  path, and to nothing else. A page object constructed without argument has the base URL
  \<^verbatim>\<open>http://localhost:3001\<close>; the client of the API tests defaults to
  \<^verbatim>\<open>http://localhost:3000\<close>.
\<close>

theorem navigate_concatenates_base_and_path:
  "navigations (navigate page (Some p) b) = navigations b @ [baseUrl page @ p]
   \<and> navigations (navigate page None b) = navigations b @ [baseUrl page]
   \<and> baseUrl (BasePage_new None) = ''http://localhost:3001''
   \<and> baseUrl (BasePage_new (Some u)) = u
   \<and> navigations (navigate (BasePage_new None) (Some p) b)
        = navigations b @ [''http://localhost:3001'' @ p]
   \<and> api_baseUrl (ApiClient_new None) = ''http://localhost:3000''"
  by (simp add: navigate_def navigateTo_def BasePage_new_def ApiClient_new_def)

theorem navigate_concatenates_base_and_path_witness:
  "navigations (navigate (BasePage_new None) (Some ''/todos'') \<lparr>navigations = []\<rparr>)
     = [''http://localhost:3001/todos'']"
  using navigate_concatenates_base_and_path
    [of "BasePage_new None" "''/todos''" "\<lparr>navigations = []\<rparr>"]
  by (simp add: BasePage_new_def)

subsection \<open>The dashboard page\<close>

text \<open>The welcome message of a user whose name is one line yields that name.\<close>

lemma welcome_name_captured:
  assumes "name \<noteq> []" and "\<not> list_ex is_line_terminator name"
  shows "String_match1 (''Welcome '' @ name)
           \<lparr>rx_anchored = False, rx_body = Seq (Lit ''Welcome '') (Group (Rep1 AnyChar))\<rparr>
         = Some name"
proof -
  from assms(2) have all: "takeWhile (in_class AnyChar) name = name"
    by (simp add: list_ex_iff)
  from assms(1) obtain n where n: "length name = Suc n" by (cases name) auto
  have "rx_run (Group (Rep1 AnyChar)) name
      = ([name], []) # map (\<lambda>(ca, ra). (take (length name - length ra) name # ca, ra))
                         (map (\<lambda>k. ([], drop k name)) (rev [1 ..< Suc n]))"
    by (simp add: all n)
  then show ?thesis
    by (simp add: String_match1_def RegExp_exec_def)
qed

lemma dashboard_example_loaded: "dashboard_isLoaded dashboard_example"
  by (simp add: dashboard_example_def dashboard_isLoaded_def dashboard_pageTitle_def
      exists_sel_def withText_def Selector_def)

lemma dashboard_example_name: "getUserName dashboard_example = Inr (Some ''Test User 17'')"
  by (simp add: dashboard_example_def getUserName_def getWelcomeMessage_def welcomeMessage_def
      innerText_def withText_re_def Selector_def RegExp_test_def RegExp_exec_def
      String_match1_def is_line_terminator_def)

text \<open>
  C7, as the code has it. Without the page title \<open>verifyUserLoggedIn\<close> returns false. With
  the title it returns true when the expected name is omitted or is the empty string, and
  for a non-empty expected name it returns true exactly when the name captured from the
  welcome message by \<^verbatim>\<open>/Welcome (.+)/\<close> is that name.
\<close>

theorem verifyUserLoggedIn_cases:
  "(\<not> dashboard_isLoaded d \<longrightarrow> verifyUserLoggedIn d expectedName = Inr False)
   \<and> (dashboard_isLoaded d \<longrightarrow>
         verifyUserLoggedIn d None = Inr True \<and> verifyUserLoggedIn d (Some []) = Inr True)
   \<and> (dashboard_isLoaded d \<and> name \<noteq> [] \<longrightarrow>
         (verifyUserLoggedIn d (Some name) = Inr True \<longleftrightarrow> getUserName d = Inr (Some name)))"
  by (auto simp: verifyUserLoggedIn_def split: sum.splits option.splits)

theorem verifyUserLoggedIn_cases_witness:
  "verifyUserLoggedIn [] (Some ''Test User 17'') = Inr False
   \<and> verifyUserLoggedIn dashboard_example None = Inr True
   \<and> verifyUserLoggedIn dashboard_example (Some ''Test User 17'') = Inr True
   \<and> verifyUserLoggedIn dashboard_example (Some ''Test User 18'') \<noteq> Inr True"
proof -
  have absent: "\<not> dashboard_isLoaded []"
    by (simp add: dashboard_isLoaded_def dashboard_pageTitle_def exists_sel_def withText_def
        Selector_def)
  note loaded = dashboard_example_loaded
  note name = dashboard_example_name
  from verifyUserLoggedIn_cases [of "[]" "Some ''Test User 17''" "''x''"] absent
  have a: "verifyUserLoggedIn [] (Some ''Test User 17'') = Inr False" by blast
  from verifyUserLoggedIn_cases [of dashboard_example None "''Test User 17''"] loaded name
  have b: "verifyUserLoggedIn dashboard_example None = Inr True
           \<and> verifyUserLoggedIn dashboard_example (Some ''Test User 17'') = Inr True"
    by simp
  from verifyUserLoggedIn_cases [of dashboard_example None "''Test User 18''"] loaded name
  have c: "verifyUserLoggedIn dashboard_example (Some ''Test User 18'') \<noteq> Inr True"
    by simp
  from a b c show ?thesis by simp
qed

text \<open>
  The claim as stated fails for an expected name that is provided and empty: on a loaded
  dashboard that welcomes ``Test User 17'' the call returns true although the captured name
  is not the empty string.
\<close>

theorem verifyUserLoggedIn_empty_name_counterexample:
  "dashboard_isLoaded dashboard_example
   \<and> \<not> (verifyUserLoggedIn dashboard_example (Some []) = Inr True
          \<longleftrightarrow> getUserName dashboard_example = Inr (Some []))"
  by (simp add: dashboard_example_loaded dashboard_example_name verifyUserLoggedIn_def)

subsection \<open>Counting the rows of the todos page\<close>

lemma completed_loop_bound:
  "completed_loop d count i acc = Inr c \<Longrightarrow> i \<le> count \<Longrightarrow> acc \<le> c \<and> c \<le> acc + (count - i)"
proof (induction d count i acc rule: completed_loop.induct)
  case (1 d count i acc)
  show ?case
  proof (cases "i < count")
    case False
    with "1.prems" show ?thesis by (simp add: completed_loop.simps)
  next
    case True
    with "1.prems" obtain b where b: "isTodoCompleted d i = Inr b"
      and rec: "completed_loop d count (i + 1) (if b then acc + 1 else acc) = Inr c"
      by (auto simp: completed_loop.simps [of d count i acc] split: sum.splits)
    from "1.IH" [OF True b rec] True
    have "(if b then acc + 1 else acc) \<le> c \<and> c \<le> (if b then acc + 1 else acc) + (count - (i + 1))"
      by simp
    with True show ?thesis by (auto split: if_splits)
  qed
qed

lemma isTodoCompleted_row:
  "i < length (todoItems d) \<Longrightarrow> row_checkbox (todoItems d ! i) = Some a \<Longrightarrow>
   isTodoCompleted d i = Inr (row_checked (todoItems d ! i))"
  by (simp add: isTodoCompleted_def nth_sel_def find_checkbox_def row_checked_def)

lemma completed_loop_counts:
  "count = length (todoItems d) \<Longrightarrow> i \<le> count \<Longrightarrow>
   list_all (\<lambda>r. row_checkbox r \<noteq> None) (todoItems d) \<Longrightarrow>
   completed_loop d count i acc = Inr (acc + length (filter row_checked (drop i (todoItems d))))"
proof (induction d count i acc rule: completed_loop.induct)
  case (1 d count i acc)
  show ?case
  proof (cases "i < count")
    case False
    with "1.prems" show ?thesis by (simp add: completed_loop.simps)
  next
    case True
    with "1.prems" have "row_checkbox (todoItems d ! i) \<noteq> None"
      by (simp add: list_all_length)
    then obtain a where a: "row_checkbox (todoItems d ! i) = Some a" by auto
    from True "1.prems" have b: "isTodoCompleted d i = Inr (row_checked (todoItems d ! i))"
      using isTodoCompleted_row [OF _ a] by simp
    from True "1.prems" have d: "drop i (todoItems d) = todoItems d ! i # drop (i + 1) (todoItems d)"
      by (simp add: Cons_nth_drop_Suc)
    from "1.IH" [OF True b] "1.prems" True
    have "completed_loop d count (i + 1) (if row_checked (todoItems d ! i) then acc + 1 else acc)
          = Inr ((if row_checked (todoItems d ! i) then acc + 1 else acc)
                 + length (filter row_checked (drop (i + 1) (todoItems d))))"
      by simp
    with True b d show ?thesis
      by (simp add: completed_loop.simps [of d count i acc])
  qed
qed

text \<open>
  C9. Whenever the count of completed rows is returned, the count of all rows is returned
  too, the completed count does not exceed it, and \<open>getIncompleteTodosCount\<close> returns their
  difference, which is not negative and adds up with the completed count to the total.
  The counts are returned for every document without spinner in which each row has its
  checkbox; the completed count is then the number of rows whose checkbox reads
  \<^verbatim>\<open>aria-checked="true"\<close>.
\<close>

theorem incomplete_is_total_minus_completed:
  "(getCompletedTodosCount d = Inr completed \<longrightarrow>
      getTodoCount d = Inr (length (todoItems d))
      \<and> completed \<le> length (todoItems d)
      \<and> getIncompleteTodosCount d = Inr (int (length (todoItems d)) - int completed)
      \<and> (\<forall>k. getIncompleteTodosCount d = Inr k \<longrightarrow>
             0 \<le> k \<and> int completed + k = int (length (todoItems d))))
   \<and> (\<not> loadingSpinner d \<and> list_all (\<lambda>r. row_checkbox r \<noteq> None) (todoItems d) \<longrightarrow>
        getCompletedTodosCount d = Inr (length (filter row_checked (todoItems d))))"
proof (intro conjI impI)
  assume c: "getCompletedTodosCount d = Inr completed"
  then have w: "waitForTodosLoad d = Inr ()"
    by (auto simp: getCompletedTodosCount_def split: sum.splits)
  then show n: "getTodoCount d = Inr (length (todoItems d))"
    by (simp add: getTodoCount_def)
  from c w n have "completed_loop d (length (todoItems d)) 0 0 = Inr completed"
    by (simp add: getCompletedTodosCount_def)
  from completed_loop_bound [OF this] show le: "completed \<le> length (todoItems d)"
    by simp
  from c n show i: "getIncompleteTodosCount d = Inr (int (length (todoItems d)) - int completed)"
    by (simp add: getIncompleteTodosCount_def)
  from i le show "\<forall>k. getIncompleteTodosCount d = Inr k \<longrightarrow>
      0 \<le> k \<and> int completed + k = int (length (todoItems d))"
    by auto
next
  assume "\<not> loadingSpinner d \<and> list_all (\<lambda>r. row_checkbox r \<noteq> None) (todoItems d)"
  then show "getCompletedTodosCount d = Inr (length (filter row_checked (todoItems d)))"
    using completed_loop_counts [of "length (todoItems d)" d 0 0]
    by (simp add: getCompletedTodosCount_def getTodoCount_def waitForTodosLoad_def)
qed

theorem incomplete_is_total_minus_completed_witness:
  "getTodoCount todos_dom_example = Inr 3
   \<and> getCompletedTodosCount todos_dom_example = Inr 1
   \<and> getIncompleteTodosCount todos_dom_example = Inr 2"
proof -
  have shape: "\<not> loadingSpinner todos_dom_example
      \<and> list_all (\<lambda>r. row_checkbox r \<noteq> None) (todoItems todos_dom_example)"
    by (simp add: todos_dom_example_def)
  have rows: "length (todoItems todos_dom_example) = 3"
    and checked: "length (filter row_checked (todoItems todos_dom_example)) = 1"
    by (simp_all add: todos_dom_example_def row_checked_def)
  note counts = incomplete_is_total_minus_completed [of todos_dom_example 1]
  from counts shape have "getCompletedTodosCount todos_dom_example
      = Inr (length (filter row_checked (todoItems todos_dom_example)))"
    by blast
  then have completed: "getCompletedTodosCount todos_dom_example = Inr 1"
    by (simp only: checked)
  from counts completed have "getTodoCount todos_dom_example = Inr (length (todoItems todos_dom_example))
      \<and> getIncompleteTodosCount todos_dom_example
          = Inr (int (length (todoItems todos_dom_example)) - int 1)"
    by blast
  with completed show ?thesis
    by (simp add: rows)
qed

subsection \<open>The application behind the todos page\<close>

lemma wf_app_init: "wf_app app_init"
  by (simp add: wf_app_def app_init_def)

lemma wf_todo_create: "wf_app st \<Longrightarrow> todo_create txt st = Inr st' \<Longrightarrow> wf_app st'"
  by (fastforce simp: wf_app_def todo_create_def list_all_iff split: if_splits)

lemma toggle_keeps_ids:
  "map todo_id (map (\<lambda>t. if todo_id t = k then t\<lparr>todo_completed := c\<rparr> else t) ts) = map todo_id ts"
  by (induction ts) auto

lemma wf_todo_toggle: "wf_app st \<Longrightarrow> wf_app (todo_toggle k c st)"
  unfolding wf_app_def todo_toggle_def
  by (simp add: toggle_keeps_ids del: map_map)

lemma wf_todo_delete: "wf_app st \<Longrightarrow> wf_app (todo_delete k st)"
  by (auto simp: wf_app_def todo_delete_def list_all_iff distinct_map_filter)

lemma render_items: "todoItems (render st) = map render_row (todos st)"
  by (simp add: render_def todo_getAll_def)

lemma getTodoCount_render: "getTodoCount (render st) = Inr (length (todos st))"
  by (simp add: getTodoCount_def waitForTodosLoad_def render_def todo_getAll_def)

lemma todoExists_render:
  "todoExists txt (render st) \<longleftrightarrow> list_ex (\<lambda>t. str_includes (todo_text t) txt) (todos st)"
  by (auto simp: todoExists_def getTodoByText_def render_items filter_empty_conv
      label_withText_def render_row_def list_ex_iff)

lemma addTodo_result:
  "txt \<noteq> [] \<Longrightarrow>
   addTodo txt st =
     Inr \<lparr>next_id = next_id st + 1,
          todos = todos st @ [\<lparr>todo_id = next_id st, todo_text = txt, todo_completed = False\<rparr>],
          todoInput = []\<rparr>"
  by (simp add: addTodo_def typeText_todoInput_def click_addButton_def todo_create_def
      Let_def waitForTodosLoad_def render_def)

lemma wf_addTodo:
  assumes "wf_app st" and "addTodo txt st = Inr st'"
  shows "wf_app st'"
proof (cases "txt = []")
  case True
  with assms(2) show ?thesis
    by (simp add: addTodo_def typeText_todoInput_def)
next
  case False
  with assms(2) have "st' =
      \<lparr>next_id = next_id st + 1,
       todos = todos st @ [\<lparr>todo_id = next_id st, todo_text = txt, todo_completed = False\<rparr>],
       todoInput = []\<rparr>"
    by (simp add: addTodo_result)
  with assms(1) show ?thesis
    by (fastforce simp: wf_app_def list_all_iff)
qed

lemma getTodoByText_render:
  "getTodoByText txt (render st)
     = map render_row (filter (\<lambda>t. str_includes (todo_text t) txt) (todos st))"
  by (simp add: getTodoByText_def render_items filter_map o_def label_withText_def render_row_def)

lemma find_checkbox_render:
  "find_checkbox (map render_row ts)
     = map (\<lambda>t. (render_row t, Some (if todo_completed t then ''true'' else ''false''))) ts"
  by (induction ts) (simp_all add: find_checkbox_def render_row_def)

lemma find_deleteButton_render: "find_deleteButton (map render_row ts) = map render_row ts"
  by (induction ts) (simp_all add: find_deleteButton_def render_row_def)

lemma row_key_render [simp]: "row_key (render_row t) = todo_id t"
  by (simp add: render_row_def)

lemma toggleTodoByText_first:
  "toggleTodoByText txt st =
     (case filter (\<lambda>t. str_includes (todo_text t) txt) (todos st) of
        [] \<Rightarrow> Inl SelectorNoMatch
      | t # _ \<Rightarrow> Inr (click_checkbox (todo_id t) st))"
  by (simp add: toggleTodoByText_def getTodoByText_render find_checkbox_render Let_def
      split: list.splits)

lemma deleteTodoByText_first:
  "deleteTodoByText txt st =
     (case filter (\<lambda>t. str_includes (todo_text t) txt) (todos st) of
        [] \<Rightarrow> Inl SelectorNoMatch
      | t # _ \<Rightarrow> Inr (click_deleteButton (todo_id t) st))"
  by (simp add: deleteTodoByText_def getTodoByText_render find_deleteButton_render Let_def
      split: list.splits)

lemma find_by_id:
  "distinct (map todo_id ts) \<Longrightarrow> x \<in> set ts \<Longrightarrow> find (\<lambda>t. todo_id t = todo_id x) ts = Some x"
  by (induction ts) (auto simp: image_iff)

lemma same_id_same_todo:
  "distinct (map todo_id ts) \<Longrightarrow> x \<in> set ts \<Longrightarrow> y \<in> set ts \<Longrightarrow> todo_id x = todo_id y \<Longrightarrow> x = y"
  by (auto simp: distinct_map dest: inj_onD)

lemma filter_head_mem: "filter P xs = t # rest \<Longrightarrow> t \<in> set xs \<and> P t"
proof -
  assume "filter P xs = t # rest"
  then have "t \<in> set (filter P xs)" by simp
  then show ?thesis by simp
qed

lemma click_checkbox_wf:
  "wf_app st \<Longrightarrow> t \<in> set (todos st) \<Longrightarrow>
   click_checkbox (todo_id t) st = todo_toggle (todo_id t) (\<not> todo_completed t) st"
  by (simp add: click_checkbox_def wf_app_def find_by_id)

lemma click_deleteButton_wf:
  "wf_app st \<Longrightarrow> t \<in> set (todos st) \<Longrightarrow>
   click_deleteButton (todo_id t) st = todo_delete (todo_id t) st"
  by (simp add: click_deleteButton_def wf_app_def find_by_id)

lemma filter_text_toggle:
  "filter (\<lambda>t. str_includes (todo_text t) txt)
     (map (\<lambda>t. if todo_id t = k then t\<lparr>todo_completed := c\<rparr> else t) ts)
   = map (\<lambda>t. if todo_id t = k then t\<lparr>todo_completed := c\<rparr> else t)
       (filter (\<lambda>t. str_includes (todo_text t) txt) ts)"
  by (induction ts) auto

lemma toggle_back:
  assumes "distinct (map todo_id ts)" and "t \<in> set ts"
  shows "map (\<lambda>x. if todo_id x = todo_id t then x\<lparr>todo_completed := todo_completed t\<rparr> else x)
           (map (\<lambda>x. if todo_id x = todo_id t then x\<lparr>todo_completed := \<not> todo_completed t\<rparr> else x) ts)
         = ts"
proof -
  let ?f = "\<lambda>x. if todo_id x = todo_id t then x\<lparr>todo_completed := \<not> todo_completed t\<rparr> else x"
  let ?g = "\<lambda>x. if todo_id x = todo_id t then x\<lparr>todo_completed := todo_completed t\<rparr> else x"
  have "?g (?f x) = x" if "x \<in> set ts" for x
  proof (cases "todo_id x = todo_id t")
    case True
    with assms that have "x = t" by (blast intro: same_id_same_todo)
    then show ?thesis by simp
  next
    case False
    then show ?thesis by simp
  qed
  then have "map (?g \<circ> ?f) ts = ts"
    by (intro map_idI) simp
  then show ?thesis by simp
qed

lemma toggle_first_match:
  assumes wf: "wf_app st"
    and f: "filter (\<lambda>t. str_includes (todo_text t) txt) (todos st) = t # rest"
  shows "toggleTodoByText txt st = Inr (todo_toggle (todo_id t) (\<not> todo_completed t) st)"
    and "toggleTodoByText txt (todo_toggle (todo_id t) (\<not> todo_completed t) st) = Inr st"
proof -
  let ?P = "\<lambda>t. str_includes (todo_text t) txt"
  from f have t: "t \<in> set (todos st)" by (blast dest: filter_head_mem)
  let ?f = "\<lambda>x. if todo_id x = todo_id t then x\<lparr>todo_completed := \<not> todo_completed t\<rparr> else x"
  let ?st1 = "todo_toggle (todo_id t) (\<not> todo_completed t) st"
  from f wf t show "toggleTodoByText txt st = Inr ?st1"
    by (simp add: toggleTodoByText_first click_checkbox_wf)
  have wf1: "wf_app ?st1" using wf by (rule wf_todo_toggle)
  have todos1: "todos ?st1 = map ?f (todos st)" by (simp add: todo_toggle_def)
  have f1: "filter ?P (todos ?st1) = ?f t # map ?f rest"
    unfolding todos1 filter_text_toggle f by simp
  have t1: "?f t \<in> set (todos ?st1)" unfolding todos1 set_map using t by (rule imageI)
  have id1: "todo_id (?f t) = todo_id t" by simp
  have c1: "todo_completed (?f t) = (\<not> todo_completed t)" by simp
  from click_checkbox_wf [OF wf1 t1]
  have "click_checkbox (todo_id t) ?st1 = todo_toggle (todo_id t) (todo_completed t) ?st1"
    by (simp only: id1 c1 not_not)
  also have "... = st"
    using toggle_back [of "todos st" t] wf t
    by (simp add: todo_toggle_def wf_app_def)
  finally show "toggleTodoByText txt ?st1 = Inr st"
    using f1 by (simp add: toggleTodoByText_first id1)
qed

lemma isTodoCompleted_render:
  "isTodoCompleted (render st) i =
     (if i < length (todos st) then Inr (todo_completed (todos st ! i)) else Inl SelectorNoMatch)"
  by (simp add: isTodoCompleted_def render_items nth_sel_def find_checkbox_def render_row_def)

subsection \<open>Adding, toggling and deleting by text\<close>

lemma filter_other_ids_remove1:
  "distinct (map f xs) \<Longrightarrow> x \<in> set xs \<Longrightarrow> filter (\<lambda>y. f y \<noteq> f x) xs = remove1 x xs"
proof (induction xs)
  case Nil
  then show ?case by simp
next
  case (Cons a xs)
  show ?case
  proof (cases "a = x")
    case True
    with Cons.prems have "f x \<notin> f ` set xs" by simp
    then have "\<forall>y\<in>set xs. f y \<noteq> f x" by (metis imageI)
    then have "filter (\<lambda>y. f y \<noteq> f x) xs = xs" by (simp add: filter_id_conv)
    with True show ?thesis by simp
  next
    case False
    with Cons.prems have "x \<in> set xs" and "f a \<noteq> f x" by auto
    with Cons False show ?thesis by simp
  qed
qed

lemma map_remove1_inj: "inj f \<Longrightarrow> map f (remove1 x xs) = remove1 (f x) (map f xs)"
  by (induction xs) (auto simp: inj_eq)

lemma filter_remove1_head: "filter P xs = t # rest \<Longrightarrow> filter P (remove1 t xs) = rest"
proof (induction xs)
  case Nil
  then show ?case by simp
next
  case (Cons a xs)
  from Cons.prems have pt: "P t" by (blast dest: filter_head_mem)
  show ?case
  proof (cases "P a")
    case True
    with Cons.prems show ?thesis by simp
  next
    case False
    with pt have "a \<noteq> t" by auto
    with False Cons show ?thesis by simp
  qed
qed

lemma inj_render_row: "inj render_row"
proof (rule injI)
  fix s t :: todo
  assume "render_row s = render_row t"
  then have "todo_id s = todo_id t \<and> todo_text s = todo_text t
      \<and> todo_completed s = todo_completed t"
    by (auto simp: render_row_def split: if_splits)
  then show "s = t" by simp
qed

lemma wf_toggleTodoByText: "wf_app st \<Longrightarrow> toggleTodoByText txt st = Inr st' \<Longrightarrow> wf_app st'"
  by (auto simp: toggleTodoByText_first click_checkbox_def wf_todo_toggle
      split: list.splits option.splits)

lemma wf_deleteTodoByText: "wf_app st \<Longrightarrow> deleteTodoByText txt st = Inr st' \<Longrightarrow> wf_app st'"
  by (auto simp: deleteTodoByText_first click_deleteButton_def wf_todo_delete
      split: list.splits option.splits)

text \<open>
  C1. For every non-empty text, \<open>addTodo\<close> completes, the count of rows read after it is one
  more than the count read before, and a row matching the text exists.
\<close>

theorem addTodo_adds_one_matching_row:
  "txt \<noteq> [] \<Longrightarrow>
   \<exists>st' n. addTodo txt st = Inr st'
     \<and> getTodoCount (render st) = Inr n
     \<and> getTodoCount (render st') = Inr (n + 1)
     \<and> todoExists txt (render st')"
  by (simp add: addTodo_result getTodoCount_render todoExists_render)

theorem addTodo_adds_one_matching_row_witness:
  "addTodo ''Test Todo 1700000000000 - ab12cd'' app_two =
     Inr \<lparr>next_id = 4,
          todos = todos app_two
            @ [\<lparr>todo_id = 3, todo_text = ''Test Todo 1700000000000 - ab12cd'',
                todo_completed = False\<rparr>],
          todoInput = []\<rparr>
   \<and> getTodoCount (render app_two) = Inr 2
   \<and> (\<exists>st'. addTodo ''Test Todo 1700000000000 - ab12cd'' app_two = Inr st'
         \<and> getTodoCount (render st') = Inr 3
         \<and> todoExists ''Test Todo 1700000000000 - ab12cd'' (render st'))"
proof -
  let ?t = "''Test Todo 1700000000000 - ab12cd''"
  have nonempty: "?t \<noteq> []" by simp
  have before: "getTodoCount (render app_two) = Inr 2"
    by (simp add: getTodoCount_render app_two_def)
  have result: "addTodo ?t app_two =
     Inr \<lparr>next_id = 4,
          todos = todos app_two @ [\<lparr>todo_id = 3, todo_text = ?t, todo_completed = False\<rparr>],
          todoInput = []\<rparr>"
    using addTodo_result [OF nonempty, of app_two] by (simp add: app_two_def)
  from addTodo_adds_one_matching_row [OF nonempty, of app_two]
  obtain st' n where "addTodo ?t app_two = Inr st'"
    and "getTodoCount (render app_two) = Inr n"
    and "getTodoCount (render st') = Inr (n + 1)"
    and "todoExists ?t (render st')"
    by blast
  with before have "addTodo ?t app_two = Inr st' \<and> getTodoCount (render st') = Inr 3
      \<and> todoExists ?t (render st')"
    by simp
  then have "\<exists>st'. addTodo ?t app_two = Inr st' \<and> getTodoCount (render st') = Inr 3
      \<and> todoExists ?t (render st')" ..
  with result before show ?thesis by blast
qed

text \<open>
  C2. In a store with distinct ids, when some todo has the text as its label, toggling by
  that text twice succeeds both times and leaves the completed state that
  \<open>isTodoCompleted\<close> reads the same as before, for that todo as for every row.
\<close>

theorem toggleTodoByText_twice_restores:
  assumes "wf_app st" and "x \<in> set (todos st)" and "todo_text x = txt"
  shows "\<exists>st1 st2. toggleTodoByText txt st = Inr st1
           \<and> toggleTodoByText txt st1 = Inr st2
           \<and> (\<forall>i. isTodoCompleted (render st2) i = isTodoCompleted (render st) i)"
proof -
  let ?P = "\<lambda>t. str_includes (todo_text t) txt"
  from assms(2,3) have "x \<in> set (filter ?P (todos st))" by simp
  then obtain t rest where f: "filter ?P (todos st) = t # rest"
    by (cases "filter ?P (todos st)") auto
  from toggle_first_match [OF assms(1) f] show ?thesis by blast
qed

theorem toggleTodoByText_twice_restores_witness:
  "isTodoCompleted (render app_two) 1 = Inr False
   \<and> (\<exists>st1 st2. toggleTodoByText ''Buy milk'' app_two = Inr st1
         \<and> isTodoCompleted (render st1) 1 = Inr True
         \<and> toggleTodoByText ''Buy milk'' st1 = Inr st2
         \<and> isTodoCompleted (render st2) 1 = Inr False)"
proof -
  let ?x = "\<lparr>todo_id = 2, todo_text = ''Buy milk'', todo_completed = False\<rparr>"
  have wf: "wf_app app_two" by (simp add: wf_app_def app_two_def)
  have x: "?x \<in> set (todos app_two)" by (simp add: app_two_def)
  have before: "isTodoCompleted (render app_two) 1 = Inr False"
    by (simp add: isTodoCompleted_render app_two_def)
  from toggleTodoByText_twice_restores [OF wf x, of "''Buy milk''"]
  obtain st1 st2 where one: "toggleTodoByText ''Buy milk'' app_two = Inr st1"
    and two: "toggleTodoByText ''Buy milk'' st1 = Inr st2"
    and same: "isTodoCompleted (render st2) 1 = isTodoCompleted (render app_two) 1"
    by auto
  have "toggleTodoByText ''Buy milk'' app_two
      = Inr (app_two\<lparr>todos := [\<lparr>todo_id = 1, todo_text = ''Write tests'', todo_completed = False\<rparr>,
                                   \<lparr>todo_id = 2, todo_text = ''Buy milk'', todo_completed = True\<rparr>]\<rparr>)"
    by (simp add: toggleTodoByText_first click_checkbox_def todo_toggle_def app_two_def)
  with one have "isTodoCompleted (render st1) 1 = Inr True"
    by (auto simp: isTodoCompleted_render)
  with one two same before show ?thesis by auto
qed

text \<open>
  C3, as the code has it. In a store with distinct ids, when no row contains the text in its
  label the click on the delete button throws. Otherwise \<open>deleteTodoByText\<close> removes
  exactly one row, the first whose label contains the text; the rows that contain the text
  afterwards are the other ones that contained it, so that \<open>todoExists\<close> then returns
  false exactly when the removed row was the only one.
\<close>

theorem deleteTodoByText_removes_first_match:
  assumes "wf_app st"
  shows "(getTodoByText txt (render st) = [] \<longrightarrow> deleteTodoByText txt st = Inl SelectorNoMatch)
    \<and> (\<forall>r others. getTodoByText txt (render st) = r # others \<longrightarrow>
          (\<exists>st'. deleteTodoByText txt st = Inr st'
             \<and> r \<in> set (todoItems (render st))
             \<and> todoItems (render st') = remove1 r (todoItems (render st))
             \<and> length (todoItems (render st')) + 1 = length (todoItems (render st))
             \<and> getTodoByText txt (render st') = others
             \<and> (todoExists txt (render st') \<longleftrightarrow> others \<noteq> [])))"
proof (intro conjI allI impI)
  assume "getTodoByText txt (render st) = []"
  then show "deleteTodoByText txt st = Inl SelectorNoMatch"
    by (simp add: deleteTodoByText_def find_deleteButton_def)
next
  fix r others
  let ?P = "\<lambda>t. str_includes (todo_text t) txt"
  assume "getTodoByText txt (render st) = r # others"
  then obtain t rest where f: "filter ?P (todos st) = t # rest"
    and r: "r = render_row t" and others: "others = map render_row rest"
    by (auto simp: getTodoByText_render map_eq_Cons_conv)
  from f have t: "t \<in> set (todos st)" by (blast dest: filter_head_mem)
  let ?st' = "todo_delete (todo_id t) st"
  from assms have d: "distinct (map todo_id (todos st))" by (simp add: wf_app_def)
  from f assms t have del: "deleteTodoByText txt st = Inr ?st'"
    by (simp add: deleteTodoByText_first click_deleteButton_wf)
  have todos': "todos ?st' = remove1 t (todos st)"
    using filter_other_ids_remove1 [OF d t] by (simp add: todo_delete_def)
  have mem: "r \<in> set (todoItems (render st))"
    using t by (simp add: render_items r)
  have rows: "todoItems (render ?st') = remove1 r (todoItems (render st))"
    by (simp add: render_items todos' r map_remove1_inj [OF inj_render_row])
  have "length (remove1 t (todos st)) + 1 = length (todos st)"
  proof -
    from t have "0 < length (todos st)" by (cases "todos st") auto
    with t show ?thesis by (simp add: length_remove1)
  qed
  then have len: "length (todoItems (render ?st')) + 1 = length (todoItems (render st))"
    by (simp add: render_items todos')
  have after: "getTodoByText txt (render ?st') = others"
    by (simp add: getTodoByText_render todos' filter_remove1_head [OF f] others)
  from del mem rows len after
  show "\<exists>st'. deleteTodoByText txt st = Inr st'
      \<and> r \<in> set (todoItems (render st))
      \<and> todoItems (render st') = remove1 r (todoItems (render st))
      \<and> length (todoItems (render st')) + 1 = length (todoItems (render st))
      \<and> getTodoByText txt (render st') = others
      \<and> (todoExists txt (render st') \<longleftrightarrow> others \<noteq> [])"
    by (simp add: todoExists_def)
qed

theorem deleteTodoByText_removes_first_match_witness:
  "deleteTodoByText ''Ship'' app_two = Inl SelectorNoMatch
   \<and> (\<exists>st'. deleteTodoByText ''Buy milk'' app_two = Inr st'
         \<and> length (todoItems (render st')) + 1 = length (todoItems (render app_two))
         \<and> \<not> todoExists ''Buy milk'' (render st'))"
proof -
  let ?r = "render_row \<lparr>todo_id = 2, todo_text = ''Buy milk'', todo_completed = False\<rparr>"
  have wf: "wf_app app_two" by (simp add: wf_app_def app_two_def)
  have none: "getTodoByText ''Ship'' (render app_two) = []"
    by (simp add: getTodoByText_render app_two_def)
  have one: "getTodoByText ''Buy milk'' (render app_two) = ?r # []"
    by (simp add: getTodoByText_render app_two_def)
  from deleteTodoByText_removes_first_match [OF wf, of "''Ship''"] none
  have a: "deleteTodoByText ''Ship'' app_two = Inl SelectorNoMatch" by blast
  from deleteTodoByText_removes_first_match [OF wf, of "''Buy milk''"] one
  obtain st' where "deleteTodoByText ''Buy milk'' app_two = Inr st'"
    and "length (todoItems (render st')) + 1 = length (todoItems (render app_two))"
    and "todoExists ''Buy milk'' (render st') \<longleftrightarrow> ([]::todo_row list) \<noteq> []"
    by blast
  then have "deleteTodoByText ''Buy milk'' app_two = Inr st'
      \<and> length (todoItems (render st')) + 1 = length (todoItems (render app_two))
      \<and> \<not> todoExists ''Buy milk'' (render st')"
    by simp
  then have "\<exists>st'. deleteTodoByText ''Buy milk'' app_two = Inr st'
      \<and> length (todoItems (render st')) + 1 = length (todoItems (render app_two))
      \<and> \<not> todoExists ''Buy milk'' (render st')" ..
  with a show ?thesis by blast
qed

lemma app_duplicates_reachable:
  "addTodo ''Buy milk'' app_init
     = Inr \<lparr>next_id = 2,
            todos = [\<lparr>todo_id = 1, todo_text = ''Buy milk'', todo_completed = False\<rparr>],
            todoInput = []\<rparr>
   \<and> addTodo ''Buy milk''
       \<lparr>next_id = 2,
        todos = [\<lparr>todo_id = 1, todo_text = ''Buy milk'', todo_completed = False\<rparr>],
        todoInput = []\<rparr>
     = Inr app_duplicates"
  by (simp add: addTodo_result app_init_def app_duplicates_def)

text \<open>
  The claim as stated fails when two rows carry the text, which the application allows:
  after adding ``Buy milk'' twice, deleting by that text removes the first of the two rows
  and the text still exists.
\<close>

theorem deleteTodoByText_duplicate_counterexample:
  "deleteTodoByText ''Buy milk'' app_duplicates
     = Inr \<lparr>next_id = 3,
            todos = [\<lparr>todo_id = 2, todo_text = ''Buy milk'', todo_completed = False\<rparr>],
            todoInput = []\<rparr>
   \<and> todoExists ''Buy milk''
        (render \<lparr>next_id = 3,
                 todos = [\<lparr>todo_id = 2, todo_text = ''Buy milk'', todo_completed = False\<rparr>],
                 todoInput = []\<rparr>)"
  by (simp add: deleteTodoByText_first click_deleteButton_def todo_delete_def
      app_duplicates_def todoExists_render)

subsection \<open>Validation of the sign-up form\<close>

lemma errorMessage_login:
  "pathname st = ''/login'' \<Longrightarrow> map el_text (errorMessage st) = messages st"
  by (simp add: errorMessage_def login_document_def withAttribute_class_def Selector_def
      RegExp_test_def RegExp_exec_def o_def filter_map)

lemma isOnSignUpForm_login:
  "pathname st = ''/login'' \<Longrightarrow> isOnSignUpForm st = (\<not> showSignIn st)"
  by (simp add: isOnSignUpForm_def login_document_def Selector_def withText_def exists_sel_def)

lemma isOnSignInForm_login:
  "pathname st = ''/login'' \<Longrightarrow> isOnSignInForm st = showSignIn st"
  by (simp add: isOnSignInForm_def login_document_def Selector_def withText_def exists_sel_def)

lemma open_guest:
  "session st = None \<Longrightarrow>
   LoginPage_open st = st\<lparr>pathname := ''/login'', showSignIn := False, nameInput := [],
       emailInput := [], passwordInput := [], messages := []\<rparr>"
  by (simp add: LoginPage_open_def)

lemma fill_after_open:
  assumes "session st = None" and "name \<noteq> []" and "email \<noteq> []" and "password \<noteq> []"
  shows "fillSignUpForm name email password (switchToSignUp (LoginPage_open st))
     = Inr (st\<lparr>pathname := ''/login'', showSignIn := False, nameInput := name,
              emailInput := email, passwordInput := password, messages := []\<rparr>)"
  using assms
  by (simp add: open_guest fillSignUpForm_def switchToSignUp_def isOnSignInForm_login
      typeText_field_def field_present_def)

text \<open>
  C5. A guest opens the login page, fills the sign-up form and submits it. When the email is
  not valid or the password has fewer than eight characters, the path is still
  \<^verbatim>\<open>/login\<close> afterwards, and the paragraphs that \<open>errorMessage\<close> selects hold
  ``Invalid email address'' for the email and ``Password must be at least 8 characters''
  for the password.
\<close>

theorem signUp_invalid_input_stays_on_login:
  assumes "session st = None" and "name \<noteq> []" and "email \<noteq> []" and "password \<noteq> []"
    and "\<not> valid_email email \<or> length password < 8"
  shows "\<exists>st1 st2.
      fillSignUpForm name email password (switchToSignUp (LoginPage_open st)) = Inr st1
      \<and> submitForm valid_email click_signInButton st1 = Inr st2
      \<and> getCurrentPath st2 = ''/login''
      \<and> (\<not> valid_email email \<longrightarrow>
            ''Invalid email address'' \<in> set (map el_text (errorMessage st2)))
      \<and> (length password < 8 \<longrightarrow>
            ''Password must be at least 8 characters'' \<in> set (map el_text (errorMessage st2)))"
proof -
  let ?st1 = "st\<lparr>pathname := ''/login'', showSignIn := False, nameInput := name,
      emailInput := email, passwordInput := password, messages := []\<rparr>"
  let ?errs = "signUp_validate valid_email name email password"
  have fill: "fillSignUpForm name email password (switchToSignUp (LoginPage_open st)) = Inr ?st1"
    using assms(1-4) by (rule fill_after_open)
  from assms(5) have errs: "?errs \<noteq> []"
    by (auto simp: signUp_validate_def)
  then have submit: "submitForm valid_email click_signInButton ?st1 = Inr (?st1\<lparr>messages := ?errs\<rparr>)"
    by (simp add: submitForm_def isOnSignUpForm_login click_signUpButton_def Let_def)
  have path: "getCurrentPath (?st1\<lparr>messages := ?errs\<rparr>) = ''/login''"
    by (simp add: getCurrentPath_def)
  have shown: "map el_text (errorMessage (?st1\<lparr>messages := ?errs\<rparr>)) = ?errs"
    by (simp add: errorMessage_login)
  have email: "\<not> valid_email email \<longrightarrow> ''Invalid email address'' \<in> set ?errs"
    and password: "length password < 8 \<longrightarrow> ''Password must be at least 8 characters'' \<in> set ?errs"
    by (simp_all add: signUp_validate_def)
  from fill submit path shown email password show ?thesis
    by (intro exI [of _ ?st1] exI [of _ "?st1\<lparr>messages := ?errs\<rparr>"]) (simp only: simp_thms)
qed

theorem signUp_invalid_input_stays_on_login_witness:
  "(\<exists>st1 st2.
      fillSignUpForm ''Test User'' ''invalid-email'' ''TestPass123!''
        (switchToSignUp (LoginPage_open guest_browser)) = Inr st1
      \<and> submitForm has_at_sign id st1 = Inr st2
      \<and> getCurrentPath st2 = ''/login''
      \<and> map el_text (errorMessage st2) = [''Invalid email address''])
   \<and> (\<exists>st1 st2.
      fillSignUpForm ''Test User'' ''test-17-ab12cd@example.com'' ''short''
        (switchToSignUp (LoginPage_open guest_browser)) = Inr st1
      \<and> submitForm has_at_sign id st1 = Inr st2
      \<and> getCurrentPath st2 = ''/login''
      \<and> map el_text (errorMessage st2) = [''Password must be at least 8 characters''])"
proof -
  have guest: "session guest_browser = None" by (simp add: guest_browser_def)
  have bad_email: "\<not> has_at_sign ''invalid-email'' \<or> length ''TestPass123!'' < 8"
    by (simp add: has_at_sign_def)
  have bad_password: "\<not> has_at_sign ''test-17-ab12cd@example.com'' \<or> length ''short'' < 8"
    by simp
  have first: "\<exists>st1 st2.
      fillSignUpForm ''Test User'' ''invalid-email'' ''TestPass123!''
        (switchToSignUp (LoginPage_open guest_browser)) = Inr st1
      \<and> submitForm has_at_sign id st1 = Inr st2
      \<and> getCurrentPath st2 = ''/login''
      \<and> map el_text (errorMessage st2) = [''Invalid email address'']"
  proof -
    from signUp_invalid_input_stays_on_login
      [where st = guest_browser and name = "''Test User''" and email = "''invalid-email''"
        and password = "''TestPass123!''" and valid_email = has_at_sign
        and click_signInButton = id] guest bad_email
    obtain st1 st2 where fill: "fillSignUpForm ''Test User'' ''invalid-email'' ''TestPass123!''
          (switchToSignUp (LoginPage_open guest_browser)) = Inr st1"
      and submit: "submitForm has_at_sign id st1 = Inr st2"
      and path: "getCurrentPath st2 = ''/login''"
      by auto
    from fill have "st1 = guest_browser\<lparr>pathname := ''/login'', showSignIn := False,
        nameInput := ''Test User'', emailInput := ''invalid-email'',
        passwordInput := ''TestPass123!'', messages := []\<rparr>"
      by (simp add: fill_after_open [OF guest])
    with submit have "messages st2 = [''Invalid email address'']"
      by (auto simp: submitForm_def isOnSignUpForm_login click_signUpButton_def
          signUp_validate_def has_at_sign_def Let_def)
    with path have "map el_text (errorMessage st2) = [''Invalid email address'']"
      by (simp add: errorMessage_login getCurrentPath_def)
    with fill submit path show ?thesis
      by (intro exI [of _ st1] exI [of _ st2]) (simp only: simp_thms)
  qed
  have second: "\<exists>st1 st2.
      fillSignUpForm ''Test User'' ''test-17-ab12cd@example.com'' ''short''
        (switchToSignUp (LoginPage_open guest_browser)) = Inr st1
      \<and> submitForm has_at_sign id st1 = Inr st2
      \<and> getCurrentPath st2 = ''/login''
      \<and> map el_text (errorMessage st2) = [''Password must be at least 8 characters'']"
  proof -
    from signUp_invalid_input_stays_on_login
      [where st = guest_browser and name = "''Test User''"
        and email = "''test-17-ab12cd@example.com''" and password = "''short''"
        and valid_email = has_at_sign and click_signInButton = id] guest bad_password
    obtain st1 st2 where fill: "fillSignUpForm ''Test User'' ''test-17-ab12cd@example.com'' ''short''
          (switchToSignUp (LoginPage_open guest_browser)) = Inr st1"
      and submit: "submitForm has_at_sign id st1 = Inr st2"
      and path: "getCurrentPath st2 = ''/login''"
      by auto
    from fill have "st1 = guest_browser\<lparr>pathname := ''/login'', showSignIn := False,
        nameInput := ''Test User'', emailInput := ''test-17-ab12cd@example.com'',
        passwordInput := ''short'', messages := []\<rparr>"
      by (simp add: fill_after_open [OF guest])
    with submit have "messages st2 = [''Password must be at least 8 characters'']"
      by (auto simp: submitForm_def isOnSignUpForm_login click_signUpButton_def
          signUp_validate_def has_at_sign_def Let_def)
    with path have "map el_text (errorMessage st2) = [''Password must be at least 8 characters'']"
      by (simp add: errorMessage_login getCurrentPath_def)
    with fill submit path show ?thesis
      by (intro exI [of _ st1] exI [of _ st2]) (simp only: simp_thms)
  qed
  from first second show ?thesis ..
qed

lemma empty_form_shows_all_messages:
  assumes "session st = None" and "\<not> valid_email []"
  shows "\<exists>st1 st2. clearForm (switchToSignUp (LoginPage_open st)) = Inr st1
      \<and> submitForm valid_email click_signInButton st1 = Inr st2
      \<and> getCurrentPath st2 = ''/login''
      \<and> map el_text (errorMessage st2)
          = [''Name must be at least 2 characters'', ''Invalid email address'',
             ''Password must be at least 8 characters'']"
  using assms
  by (simp add: open_guest switchToSignUp_def isOnSignInForm_login isOnSignUpForm_login
      clearForm_def submitForm_def click_signUpButton_def signUp_validate_def Let_def
      getCurrentPath_def errorMessage_login)

lemma valid_signUp_reaches_dashboard:
  assumes "session st = None" and "2 \<le> length name" and "valid_email email"
    and "8 \<le> length password" and "email \<noteq> []"
  shows "\<exists>st1 st2.
      fillSignUpForm name email password (switchToSignUp (LoginPage_open st)) = Inr st1
      \<and> submitForm valid_email click_signInButton st1 = Inr st2
      \<and> getCurrentPath st2 = ''/dashboard''
      \<and> verifyUserLoggedIn (login_document st2) None = Inr True"
proof -
  from assms have ne: "name \<noteq> []" "password \<noteq> []" by auto
  show ?thesis
    using assms
    by (simp add: fill_after_open [OF assms(1) ne(1) assms(5) ne(2)] submitForm_def
        isOnSignUpForm_login click_signUpButton_def signUp_validate_def Let_def
        getCurrentPath_def login_document_def verifyUserLoggedIn_def dashboard_isLoaded_def
        dashboard_pageTitle_def exists_sel_def withText_def Selector_def)
qed

subsection \<open>The guest role\<close>
























lemma document_cookie_set_keeps_httpOnly:
  assumes "c \<in> set (cookie_jar st)" and "cookie_httpOnly c"
  shows "c \<in> set (cookie_jar (document_cookie_set now doc_path s st))"
  using assms
  by (auto simp: document_cookie_set_def Let_def list_ex_iff split: option.splits prod.splits)

lemma writes_keep_httpOnly:
  assumes "c \<in> set (cookie_jar st)" and "cookie_httpOnly c"
  shows "c \<in> set (cookie_jar (foldl (\<lambda>s w. document_cookie_set now doc_path (f w) s) st ws))"
  using assms
  by (induction ws arbitrary: st) (simp_all add: document_cookie_set_keeps_httpOnly)







text \<open>
  A cookie marked \<^verbatim>\<open>HttpOnly\<close> is out of reach of the routine; that a test under the role
  starts without one is due to the clean session on which the role runs the routine.
\<close>

lemma guestUser_init_keeps_httpOnly:
  "c \<in> set (cookie_jar st) \<Longrightarrow> cookie_httpOnly c \<Longrightarrow> c \<in> set (cookie_jar (guestUser_init now st))"
  by (simp add: guestUser_init_def Let_def writes_keep_httpOnly)



end
